theory Spec2Isabelle
  imports
    Complex_Main
    "HOL-Library.AList"
    "HOL-Library.Char_ord"
    "HOL-Library.List_Lexorder"
    "HOL-Library.Multiset"
begin

section \<open>The persistent cache of src/data/cache.py\<close>

text \<open>
  The class \<open>Cache\<close> keeps, for every ticker, four collections of records that are merged
  on every write (prices, financial metrics, insider trades, company news) and one dictionary
  of line-item query results, and mirrors each of them in a JSON file below \<open>./data/<ticker>\<close>.
  This theory embeds the class: records and their values, \<open>_merge_data\<close>, the getters and
  setters, the composite key of the line items, and the directory and file operations.
\<close>

subsection \<open>Values and records\<close>

text \<open>
  A record is a Python \<open>dict\<close> from field names to values. The records that reach the cache are
  dumps of the models of src/data/models.py, whose fields are \<open>str\<close>, \<open>float\<close>, \<open>int\<close>,
  \<open>bool\<close> or \<open>None\<close>; \<open>pyval\<close> has one constructor for each. A finite float is written as
  the rational number it denotes (the values \<open>nan\<close> and \<open>inf\<close> are left out). A dictionary is
  an association list in insertion order, read with \<open>map_of\<close>.
\<close>

datatype pyval = VNone | VBool bool | VInt int | VFloat rat | VStr string

type_synonym pyrecord = "(string \<times> pyval) list"

text \<open>
  Python compares and hashes numbers by their numeric value: \<open>True == 1 == 1.0\<close>, and all
  three have the same hash. A set of values therefore holds one element for the three of them.
  \<open>hash_key\<close> sends a value to its class under \<open>==\<close>, so that two values are equal for
  Python exactly if they have the same \<open>hash_key\<close>.
\<close>

datatype hkey = KNone | KNum rat | KStr string

fun hash_key :: "pyval \<Rightarrow> hkey" where
  "hash_key VNone = KNone"
| "hash_key (VBool b) = KNum (if b then 1 else 0)"
| "hash_key (VInt i) = KNum (of_int i)"
| "hash_key (VFloat q) = KNum q"
| "hash_key (VStr s) = KStr s"

text \<open>The exceptions that leave a method of the class.\<close>

datatype error = KeyError | FileExistsError

text \<open>\<open>item[key_field]\<close>: a missing key raises \<open>KeyError\<close>.\<close>

definition getitem :: "pyrecord \<Rightarrow> string \<Rightarrow> error + pyval" where
  "getitem item key_field =
     (case map_of item key_field of None \<Rightarrow> Inl KeyError | Some v \<Rightarrow> Inr v)"

subsection \<open>The merge\<close>

text \<open>
  \<open>{item[key_field] for item in existing}\<close>: the set of the identity values, built item by
  item; the first item without the field raises.
\<close>

fun existing_keys :: "pyrecord list \<Rightarrow> string \<Rightarrow> error + hkey set" where
  "existing_keys [] key_field = Inr {}"
| "existing_keys (item # rest) key_field =
     (case getitem item key_field of
        Inl e \<Rightarrow> Inl e
      | Inr v \<Rightarrow>
          (case existing_keys rest key_field of
             Inl e \<Rightarrow> Inl e
           | Inr keys \<Rightarrow> Inr (insert (hash_key v) keys)))"

text \<open>\<open>[item for item in new_data if item[key_field] not in existing_keys]\<close>.\<close>

fun new_items :: "pyrecord list \<Rightarrow> string \<Rightarrow> hkey set \<Rightarrow> error + pyrecord list" where
  "new_items [] key_field keys = Inr []"
| "new_items (item # rest) key_field keys =
     (case getitem item key_field of
        Inl e \<Rightarrow> Inl e
      | Inr v \<Rightarrow>
          (case new_items rest key_field keys of
             Inl e \<Rightarrow> Inl e
           | Inr added \<Rightarrow> Inr (if hash_key v \<notin> keys then item # added else added)))"

text \<open>
  \<open>_merge_data\<close>. \<open>not existing\<close> holds for \<open>None\<close> and for the empty list; then the new
  data is returned as it is and no record is looked at.
\<close>

definition merge_data ::
  "pyrecord list option \<Rightarrow> pyrecord list \<Rightarrow> string \<Rightarrow> error + pyrecord list" where
  "merge_data existing new_data key_field =
     (case existing of
        None \<Rightarrow> Inr new_data
      | Some ex \<Rightarrow>
          if ex = [] then Inr new_data
          else
            (case existing_keys ex key_field of
               Inl e \<Rightarrow> Inl e
             | Inr keys \<Rightarrow>
                 (case new_items new_data key_field keys of
                    Inl e \<Rightarrow> Inl e
                  | Inr added \<Rightarrow> Inr (ex @ added))))"

subsection \<open>The directory \<open>./data\<close>\<close>

text \<open>
  The cache reads and writes one directory, \<open>self._base_dir\<close>. It is either missing
  (\<open>None\<close>) or a directory with named entries. An entry is a sub-directory holding the five
  files of a ticker, or something that is not a directory (\<open>Plain\<close>). A file that exists is
  UTF-8 text: either a JSON document of the shape the cache writes, or \<open>Corrupt\<close>, text
  that is not valid JSON, for which \<open>json.load\<close> raises \<open>JSONDecodeError\<close>. The file
  system is healthy: a write into an existing directory succeeds.
\<close>

datatype 'a json_file = Corrupt | Doc 'a

record ticker_files =
  prices_json :: "pyrecord list json_file option"
  financial_metrics_json :: "pyrecord list json_file option"
  line_items_json :: "(string \<times> pyrecord list) list json_file option"
  insider_trades_json :: "pyrecord list json_file option"
  company_news_json :: "pyrecord list json_file option"

definition no_files :: ticker_files where
  "no_files = \<lparr>prices_json = None, financial_metrics_json = None, line_items_json = None,
                insider_trades_json = None, company_news_json = None\<rparr>"

datatype entry = Plain | TickerDir ticker_files

type_synonym disk = "(string \<times> entry) list option"

fun entries :: "disk \<Rightarrow> (string \<times> entry) list" where
  "entries None = []"
| "entries (Some es) = es"

text \<open>
  The directory of a ticker is \<open>self._base_dir / ticker\<close>. When the ticker is one path
  component (not empty, without \<open>/\<close> and without the null character, and neither \<open>.\<close> nor
  \<open>..\<close>) this is the entry of that name in the base directory, and distinct tickers have
  distinct entries (names are compared exactly, as on a case-sensitive file system). For
  any other string the path names the base directory itself, a directory above it or a
  nested one, and \<open>mkdir(parents=True)\<close> also creates the directories in between. The
  model of the directory describes the tickers that are path components, and only those.
\<close>

definition path_component :: "string \<Rightarrow> bool" where
  "path_component ticker =
     (ticker \<noteq> [] \<and> CHR ''/'' \<notin> set ticker \<and> CHR 0x00 \<notin> set ticker \<and>
      ticker \<noteq> ''.'' \<and> ticker \<noteq> ''..'')"

text \<open>
  \<open>_ensure_ticker_dir\<close>, for a ticker that is a path component:
  \<open>mkdir(parents=True, exist_ok=True)\<close> creates the base directory and the ticker's
  directory where they are missing, accepts an existing directory and raises
  \<open>FileExistsError\<close> when the name is taken by something else.
\<close>

definition ensure_ticker_dir :: "disk \<Rightarrow> string \<Rightarrow> error + disk" where
  "ensure_ticker_dir d ticker =
     (case map_of (entries d) ticker of
        None \<Rightarrow> Inr (Some (entries d @ [(ticker, TickerDir no_files)]))
      | Some Plain \<Rightarrow> Inl FileExistsError
      | Some (TickerDir f) \<Rightarrow> Inr (Some (entries d)))"

text \<open>
  \<open>_save_file\<close>, with the file given by the ticker and by the function that replaces the
  file's content in the ticker's directory. Without that directory \<open>open\<close> fails; the
  \<open>IOError\<close> is caught and reported, and nothing is written.
\<close>

fun write_in :: "(ticker_files \<Rightarrow> ticker_files) \<Rightarrow> entry \<Rightarrow> entry" where
  "write_in w Plain = Plain"
| "write_in w (TickerDir f) = TickerDir (w f)"

definition save_file :: "disk \<Rightarrow> string \<Rightarrow> (ticker_files \<Rightarrow> ticker_files) \<Rightarrow> disk" where
  "save_file d ticker w = map_option (AList.map_entry ticker (write_in w)) d"

subsection \<open>The cache object\<close>

text \<open>
  The five dictionaries of the object, keyed by ticker, and the directory it works on. The
  inner dictionary of the line items is an association list: it is tested for emptiness and
  written to disk as one JSON object.
\<close>

record cache =
  prices_cache :: "string \<rightharpoonup> pyrecord list"
  financial_metrics_cache :: "string \<rightharpoonup> pyrecord list"
  line_items_cache :: "string \<rightharpoonup> (string \<times> pyrecord list) list"
  insider_trades_cache :: "string \<rightharpoonup> pyrecord list"
  company_news_cache :: "string \<rightharpoonup> pyrecord list"
  base_dir :: disk

text \<open>
  \<open>_load_file\<close>: a missing file is skipped; for text that is not valid JSON the
  \<open>JSONDecodeError\<close> is caught, reported, and the file skipped; otherwise the document is
  handed to \<open>update_func\<close>.
\<close>

fun load_file :: "'a json_file option \<Rightarrow> ('a \<Rightarrow> cache \<Rightarrow> cache) \<Rightarrow> cache \<Rightarrow> cache" where
  "load_file None update_func c = c"
| "load_file (Some Corrupt) update_func c = c"
| "load_file (Some (Doc data)) update_func c = update_func data c"

text \<open>The body of the loop of \<open>_load_cache\<close>, for one entry of the base directory.\<close>

fun load_entry :: "string \<times> entry \<Rightarrow> cache \<Rightarrow> cache" where
  "load_entry (ticker, Plain) c = c"
| "load_entry (ticker, TickerDir f) c =
     (let c1 = load_file (prices_json f)
                 (\<lambda>data c. c\<lparr>prices_cache := (prices_cache c)(ticker \<mapsto> data)\<rparr>) c;
          c2 = load_file (financial_metrics_json f)
                 (\<lambda>data c. c\<lparr>financial_metrics_cache :=
                    (financial_metrics_cache c)(ticker \<mapsto> data)\<rparr>) c1;
          c3 = load_file (line_items_json f)
                 (\<lambda>data c. c\<lparr>line_items_cache := (line_items_cache c)(ticker \<mapsto> data)\<rparr>) c2;
          c4 = load_file (insider_trades_json f)
                 (\<lambda>data c. c\<lparr>insider_trades_cache :=
                    (insider_trades_cache c)(ticker \<mapsto> data)\<rparr>) c3
      in load_file (company_news_json f)
           (\<lambda>data c. c\<lparr>company_news_cache := (company_news_cache c)(ticker \<mapsto> data)\<rparr>) c4)"

text \<open>
  \<open>_load_cache\<close>: a missing base directory is created and nothing is loaded; otherwise
  every entry of the directory is visited.
\<close>

definition load_cache :: "cache \<Rightarrow> cache" where
  "load_cache c =
     (case base_dir c of
        None \<Rightarrow> c\<lparr>base_dir := Some []\<rparr>
      | Some es \<Rightarrow> fold load_entry es c)"

text \<open>
  \<open>Cache()\<close>, constructed while the base directory is \<open>d\<close>: \<open>__init__\<close> assigns five
  empty dictionaries and then loads the cache from disk.
\<close>

definition empty_cache :: "disk \<Rightarrow> cache" where
  "empty_cache d =
     \<lparr>prices_cache = Map.empty, financial_metrics_cache = Map.empty,
      line_items_cache = Map.empty, insider_trades_cache = Map.empty,
      company_news_cache = Map.empty, base_dir = d\<rparr>"

definition new_cache :: "disk \<Rightarrow> cache" where
  "new_cache d = load_cache (empty_cache d)"

subsection \<open>The four merged collections\<close>

text \<open>
  The getters and setters of prices, financial metrics, insider trades and company news
  are the same code up to the dictionary, the identity field and the file name.
\<close>

datatype collection = Prices | FinancialMetrics | InsiderTrades | CompanyNews

fun key_field_of :: "collection \<Rightarrow> string" where
  "key_field_of Prices = ''time''"
| "key_field_of FinancialMetrics = ''report_period''"
| "key_field_of InsiderTrades = ''filing_date''"
| "key_field_of CompanyNews = ''date''"

fun cache_of :: "collection \<Rightarrow> cache \<Rightarrow> (string \<rightharpoonup> pyrecord list)" where
  "cache_of Prices c = prices_cache c"
| "cache_of FinancialMetrics c = financial_metrics_cache c"
| "cache_of InsiderTrades c = insider_trades_cache c"
| "cache_of CompanyNews c = company_news_cache c"

fun cache_store :: "collection \<Rightarrow> string \<Rightarrow> pyrecord list \<Rightarrow> cache \<Rightarrow> cache" where
  "cache_store Prices ticker data c = c\<lparr>prices_cache := (prices_cache c)(ticker \<mapsto> data)\<rparr>"
| "cache_store FinancialMetrics ticker data c =
     c\<lparr>financial_metrics_cache := (financial_metrics_cache c)(ticker \<mapsto> data)\<rparr>"
| "cache_store InsiderTrades ticker data c =
     c\<lparr>insider_trades_cache := (insider_trades_cache c)(ticker \<mapsto> data)\<rparr>"
| "cache_store CompanyNews ticker data c =
     c\<lparr>company_news_cache := (company_news_cache c)(ticker \<mapsto> data)\<rparr>"

fun file_of :: "collection \<Rightarrow> ticker_files \<Rightarrow> pyrecord list json_file option" where
  "file_of Prices f = prices_json f"
| "file_of FinancialMetrics f = financial_metrics_json f"
| "file_of InsiderTrades f = insider_trades_json f"
| "file_of CompanyNews f = company_news_json f"

fun file_write :: "collection \<Rightarrow> pyrecord list \<Rightarrow> ticker_files \<Rightarrow> ticker_files" where
  "file_write Prices data f = f\<lparr>prices_json := Some (Doc data)\<rparr>"
| "file_write FinancialMetrics data f = f\<lparr>financial_metrics_json := Some (Doc data)\<rparr>"
| "file_write InsiderTrades data f = f\<lparr>insider_trades_json := Some (Doc data)\<rparr>"
| "file_write CompanyNews data f = f\<lparr>company_news_json := Some (Doc data)\<rparr>"

definition get_collection :: "collection \<Rightarrow> cache \<Rightarrow> string \<Rightarrow> pyrecord list option" where
  "get_collection coll c ticker = cache_of coll c ticker"

text \<open>
  A setter returns the exception it raised, if any, and the cache and directory as the call
  leaves them. The merge comes first: when it raises, nothing has been assigned. The
  directory is ensured after the assignment, and the file is written last.
\<close>

definition set_collection ::
  "collection \<Rightarrow> cache \<Rightarrow> string \<Rightarrow> pyrecord list \<Rightarrow> error option \<times> cache" where
  "set_collection coll c ticker data =
     (case merge_data (cache_of coll c ticker) data (key_field_of coll) of
        Inl e \<Rightarrow> (Some e, c)
      | Inr merged \<Rightarrow>
          (let c1 = cache_store coll ticker merged c in
           case ensure_ticker_dir (base_dir c1) ticker of
             Inl e \<Rightarrow> (Some e, c1)
           | Inr d \<Rightarrow> (None, c1\<lparr>base_dir := save_file d ticker (file_write coll merged)\<rparr>)))"

definition get_prices :: "cache \<Rightarrow> string \<Rightarrow> pyrecord list option" where
  "get_prices = get_collection Prices"

definition set_prices :: "cache \<Rightarrow> string \<Rightarrow> pyrecord list \<Rightarrow> error option \<times> cache" where
  "set_prices = set_collection Prices"

definition get_financial_metrics :: "cache \<Rightarrow> string \<Rightarrow> pyrecord list option" where
  "get_financial_metrics = get_collection FinancialMetrics"

definition set_financial_metrics ::
  "cache \<Rightarrow> string \<Rightarrow> pyrecord list \<Rightarrow> error option \<times> cache" where
  "set_financial_metrics = set_collection FinancialMetrics"

definition get_insider_trades :: "cache \<Rightarrow> string \<Rightarrow> pyrecord list option" where
  "get_insider_trades = get_collection InsiderTrades"

definition set_insider_trades ::
  "cache \<Rightarrow> string \<Rightarrow> pyrecord list \<Rightarrow> error option \<times> cache" where
  "set_insider_trades = set_collection InsiderTrades"

definition get_company_news :: "cache \<Rightarrow> string \<Rightarrow> pyrecord list option" where
  "get_company_news = get_collection CompanyNews"

definition set_company_news ::
  "cache \<Rightarrow> string \<Rightarrow> pyrecord list \<Rightarrow> error option \<times> cache" where
  "set_company_news = set_collection CompanyNews"

subsection \<open>The line items\<close>

text \<open>\<open>','.join(...)\<close>, for any separator.\<close>

fun join :: "string \<Rightarrow> string list \<Rightarrow> string" where
  "join sep [] = []"
| "join sep [x] = x"
| "join sep (x # y # ys) = x @ sep @ join sep (y # ys)"

text \<open>
  The key of a query, \<open>f"{end_date}_{period}_{','.join(sorted(line_items))}"\<close>. Strings are
  compared as Python compares them, character by character.
\<close>

definition query_key :: "string \<Rightarrow> string \<Rightarrow> string list \<Rightarrow> string" where
  "query_key end_date period line_items =
     end_date @ ''_'' @ period @ ''_'' @ join '','' (sort line_items)"

text \<open>\<open>self._line_items_cache.get(ticker, {})\<close>.\<close>

definition ticker_data_of :: "cache \<Rightarrow> string \<Rightarrow> (string \<times> pyrecord list) list" where
  "ticker_data_of c ticker =
     (case line_items_cache c ticker of None \<Rightarrow> [] | Some d \<Rightarrow> d)"

definition get_line_items ::
  "cache \<Rightarrow> string \<Rightarrow> string list \<Rightarrow> string \<Rightarrow> string \<Rightarrow> pyrecord list option" where
  "get_line_items c ticker line_items end_date period =
     (let ticker_data = ticker_data_of c ticker in
      if ticker_data = [] then None
      else map_of ticker_data (query_key end_date period line_items))"

text \<open>
  \<open>set_line_items\<close>: the ticker's dictionary, empty if the ticker is new, gets the data under
  the key (\<open>AList.update\<close> is the assignment \<open>d[key] = data\<close>); then directory and file as
  for the other setters. There is no merge.
\<close>

definition set_line_items ::
  "cache \<Rightarrow> string \<Rightarrow> string list \<Rightarrow> string \<Rightarrow> string \<Rightarrow> pyrecord list
     \<Rightarrow> error option \<times> cache" where
  "set_line_items c ticker line_items end_date period data =
     (let key = query_key end_date period line_items;
          ticker_data = AList.update key data (ticker_data_of c ticker);
          c1 = c\<lparr>line_items_cache := (line_items_cache c)(ticker \<mapsto> ticker_data)\<rparr>
      in case ensure_ticker_dir (base_dir c1) ticker of
           Inl e \<Rightarrow> (Some e, c1)
         | Inr d \<Rightarrow>
             (None, c1\<lparr>base_dir :=
                save_file d ticker (\<lambda>f. f\<lparr>line_items_json := Some (Doc ticker_data)\<rparr>)\<rparr>))"

subsection \<open>Sequences of calls\<close>

text \<open>
  A call of the public interface, and the cache after the call, whether it returned or
  raised. The getters read the dictionaries and change nothing.
\<close>

datatype call =
    Get collection string
  | Set collection string "pyrecord list"
  | GetLineItems string "string list" string string
  | SetLineItems string "string list" string string "pyrecord list"

fun after :: "cache \<Rightarrow> call \<Rightarrow> cache" where
  "after c (Get coll ticker) = c"
| "after c (Set coll ticker data) = snd (set_collection coll c ticker data)"
| "after c (GetLineItems ticker line_items end_date period) = c"
| "after c (SetLineItems ticker line_items end_date period data) =
     snd (set_line_items c ticker line_items end_date period data)"

definition run :: "cache \<Rightarrow> call list \<Rightarrow> cache" where
  "run c calls = foldl after c calls"

fun is_get :: "call \<Rightarrow> bool" where
  "is_get (Get coll ticker) = True"
| "is_get (GetLineItems ticker line_items end_date period) = True"
| "is_get other = False"

subsection \<open>Vocabulary of the statements\<close>

text \<open>
  \<open>identity k r\<close> is the identity value of the record \<open>r\<close> for the field \<open>k\<close>, up to Python's
  equality, and \<open>None\<close> when the record has no such field. \<open>identities k rs\<close> are the identity
  values that occur in a list of records.
\<close>

definition has_field :: "string \<Rightarrow> pyrecord \<Rightarrow> bool" where
  "has_field k r = (map_of r k \<noteq> None)"

definition identity :: "string \<Rightarrow> pyrecord \<Rightarrow> hkey option" where
  "identity k r = map_option hash_key (map_of r k)"

definition identities :: "string \<Rightarrow> pyrecord list \<Rightarrow> hkey option set" where
  "identities k rs = set (map (identity k) rs)"

text \<open>The records of a stored collection; an absent collection has none.\<close>

fun stored :: "pyrecord list option \<Rightarrow> pyrecord list" where
  "stored None = []"
| "stored (Some rs) = rs"

text \<open>
  A list of records is well keyed for a field when every record has the field and no two
  records have the same identity value.
\<close>

definition well_keyed :: "string \<Rightarrow> pyrecord list \<Rightarrow> bool" where
  "well_keyed k rs = ((\<forall>r\<in>set rs. has_field k r) \<and> distinct (map (identity k) rs))"

text \<open>The calls of a sequence that write to a collection do so with well-keyed batches.\<close>

fun batches_well_keyed :: "collection \<Rightarrow> call \<Rightarrow> bool" where
  "batches_well_keyed coll (Set coll' ticker data) =
     (coll' = coll \<longrightarrow> well_keyed (key_field_of coll) data)"
| "batches_well_keyed coll other = True"

text \<open>The file of a collection in the directory of a ticker, if both exist.\<close>

definition file_on_disk :: "collection \<Rightarrow> disk \<Rightarrow> string \<Rightarrow> pyrecord list json_file option" where
  "file_on_disk coll d ticker =
     (case map_of (entries d) ticker of
        None \<Rightarrow> None
      | Some Plain \<Rightarrow> None
      | Some (TickerDir f) \<Rightarrow> file_of coll f)"

text \<open>The ticker a call is about, and the entry of a ticker in the base directory.\<close>

fun ticker_of :: "call \<Rightarrow> string" where
  "ticker_of (Get coll ticker) = ticker"
| "ticker_of (Set coll ticker data) = ticker"
| "ticker_of (GetLineItems ticker line_items end_date period) = ticker"
| "ticker_of (SetLineItems ticker line_items end_date period data) = ticker"

definition directory_of :: "cache \<Rightarrow> string \<Rightarrow> entry option" where
  "directory_of c ticker = map_of (entries (base_dir c)) ticker"

definition line_items_on_disk ::
  "disk \<Rightarrow> string \<Rightarrow> (string \<times> pyrecord list) list json_file option" where
  "line_items_on_disk d ticker =
     (case map_of (entries d) ticker of
        None \<Rightarrow> None
      | Some Plain \<Rightarrow> None
      | Some (TickerDir f) \<Rightarrow> line_items_json f)"

text \<open>
  The parts of a key that cannot be confused with its separators: an end date or a period
  without an underscore, and a field name that is not empty and has no comma.
\<close>

definition plain_name :: "string \<Rightarrow> bool" where
  "plain_name x = (x \<noteq> [] \<and> CHR '','' \<notin> set x)"

definition plain_part :: "string \<Rightarrow> bool" where
  "plain_part x = (CHR ''_'' \<notin> set x)"

subsection \<open>Example states\<close>

text \<open>
  A cache that holds one price bar for \<open>AAPL\<close>; a base directory with a price file for
  \<open>AAPL\<close> and one entry that is not a directory; a cache that holds the results of two
  line-item queries for \<open>AAPL\<close>.
\<close>

definition warm_cache :: cache where
  "warm_cache =
     (empty_cache (Some []))\<lparr>prices_cache :=
        [''AAPL'' \<mapsto> [[(''time'', VStr ''2024-01-01''), (''close'', VInt 100)]]]\<rparr>"

definition aapl_only :: disk where
  "aapl_only =
     Some [(''AAPL'', TickerDir (no_files\<lparr>prices_json :=
              Some (Doc [[(''time'', VStr ''2024-01-01''), (''close'', VInt 100)]])\<rparr>)),
           (''README'', Plain)]"

definition items_cache :: cache where
  "items_cache =
     (empty_cache None)\<lparr>line_items_cache :=
        [''AAPL'' \<mapsto> [(''2024-01-01_ttm_revenue'', [[(''revenue'', VInt 1)]]),
                       (''2024-01-01_annual_revenue'', [[(''revenue'', VInt 7)]])]]\<rparr>"

subsection \<open>Facts about the two comprehensions\<close>

lemma identity_None_iff: "identity k r = None \<longleftrightarrow> \<not> has_field k r"
  by (simp add: identity_def has_field_def)

lemma getitem_has_field:
  "has_field k r \<Longrightarrow> \<exists>v. getitem r k = Inr v \<and> identity k r = Some (hash_key v)"
  by (auto simp: has_field_def getitem_def identity_def)

lemma getitem_no_field: "\<not> has_field k r \<Longrightarrow> getitem r k = Inl KeyError"
  by (simp add: has_field_def getitem_def)

lemma existing_keys_total:
  "\<forall>r\<in>set rs. has_field k r \<Longrightarrow>
   existing_keys rs k = Inr {h. Some h \<in> identities k rs}"
proof (induction rs)
  case Nil
  show ?case by (simp add: identities_def)
next
  case (Cons r rs)
  from Cons.prems obtain v where v: "getitem r k = Inr v" "identity k r = Some (hash_key v)"
    using getitem_has_field by force
  from Cons have IH: "existing_keys rs k = Inr {h. Some h \<in> identities k rs}" by simp
  show ?case using v IH by (auto simp: identities_def)
qed

lemma existing_keys_raises:
  "\<exists>r\<in>set rs. \<not> has_field k r \<Longrightarrow> existing_keys rs k = Inl KeyError"
proof (induction rs)
  case Nil
  then show ?case by simp
next
  case (Cons r rs)
  show ?case
  proof (cases "has_field k r")
    case True
    with Cons have "existing_keys rs k = Inl KeyError" by auto
    with True show ?thesis using getitem_has_field [of k r] by auto
  next
    case False
    then show ?thesis by (simp add: getitem_no_field)
  qed
qed

lemma new_items_total:
  "\<forall>r\<in>set rs. has_field k r \<Longrightarrow>
   new_items rs k keys = Inr (filter (\<lambda>r. identity k r \<notin> Some ` keys) rs)"
proof (induction rs)
  case Nil
  show ?case by simp
next
  case (Cons r rs)
  from Cons.prems obtain v where v: "getitem r k = Inr v" "identity k r = Some (hash_key v)"
    using getitem_has_field by force
  from Cons have IH: "new_items rs k keys = Inr (filter (\<lambda>r. identity k r \<notin> Some ` keys) rs)"
    by simp
  show ?case using v IH by auto
qed

lemma new_items_raises:
  "\<exists>r\<in>set rs. \<not> has_field k r \<Longrightarrow> new_items rs k keys = Inl KeyError"
proof (induction rs)
  case Nil
  then show ?case by simp
next
  case (Cons r rs)
  show ?case
  proof (cases "has_field k r")
    case True
    with Cons have "new_items rs k keys = Inl KeyError" by auto
    with True show ?thesis using getitem_has_field [of k r] by auto
  next
    case False
    then show ?thesis by (simp add: getitem_no_field)
  qed
qed

text \<open>
  The merge of a non-empty collection, when every record has the field: the existing records,
  then the new records whose identity value does not occur among the existing ones.
\<close>

lemma merge_data_warm:
  assumes "ex \<noteq> []"
    and "\<forall>r\<in>set ex. has_field k r"
    and "\<forall>r\<in>set new. has_field k r"
  shows "merge_data (Some ex) new k =
         Inr (ex @ filter (\<lambda>r. identity k r \<notin> identities k ex) new)"
proof -
  have "filter (\<lambda>r. identity k r \<notin> Some ` {h. Some h \<in> identities k ex}) new =
        filter (\<lambda>r. identity k r \<notin> identities k ex) new"
  proof (rule filter_cong [OF refl])
    fix r
    assume "r \<in> set new"
    with assms(3) have "identity k r \<noteq> None" by (simp add: identity_None_iff)
    then show "(identity k r \<notin> Some ` {h. Some h \<in> identities k ex}) =
               (identity k r \<notin> identities k ex)"
      by auto
  qed
  then show ?thesis
    using assms by (simp add: merge_data_def existing_keys_total new_items_total)
qed

lemma merge_data_warm_raises:
  assumes "ex \<noteq> []"
    and "(\<exists>r\<in>set ex. \<not> has_field k r) \<or> (\<exists>r\<in>set new. \<not> has_field k r)"
  shows "merge_data (Some ex) new k = Inl KeyError"
proof (cases "\<exists>r\<in>set ex. \<not> has_field k r")
  case True
  then show ?thesis using assms(1) by (simp add: merge_data_def existing_keys_raises)
next
  case False
  then have ok: "\<forall>r\<in>set ex. has_field k r" by simp
  from False assms(2) have "\<exists>r\<in>set new. \<not> has_field k r" by simp
  then show ?thesis
    using assms(1) by (simp add: merge_data_def existing_keys_total [OF ok] new_items_raises)
qed

lemma merge_data_cold: "stored E = [] \<Longrightarrow> merge_data E new k = Inr new"
  by (cases E) (simp_all add: merge_data_def)

lemma merge_data_returns:
  assumes "merge_data E new k = Inr M"
  shows "M = stored E @ filter (\<lambda>r. identity k r \<notin> identities k (stored E)) new"
proof (cases "stored E = []")
  case True
  with assms show ?thesis by (simp add: merge_data_cold identities_def)
next
  case False
  then obtain ex where E: "E = Some ex" "ex \<noteq> []" by (cases E) auto
  have "(\<forall>r\<in>set ex. has_field k r) \<and> (\<forall>r\<in>set new. has_field k r)"
  proof (rule ccontr)
    assume "\<not> ?thesis"
    then have "merge_data (Some ex) new k = Inl KeyError"
      using merge_data_warm_raises [OF E(2), of k new] by blast
    with assms E show False by simp
  qed
  then show ?thesis using merge_data_warm [OF E(2), of k new] assms E by simp
qed

lemma merge_data_total:
  assumes "\<forall>r\<in>set (stored E). has_field k r" and "\<forall>r\<in>set new. has_field k r"
  shows "\<exists>M. merge_data E new k = Inr M"
proof (cases "stored E = []")
  case True
  then show ?thesis by (simp add: merge_data_cold)
next
  case False
  then obtain ex where E: "E = Some ex" "ex \<noteq> []" by (cases E) auto
  with assms show ?thesis using merge_data_warm [OF E(2), of k new] by simp
qed

lemma filter_known_identities:
  "\<forall>r\<in>set new. identity k r \<in> identities k M \<Longrightarrow>
   filter (\<lambda>r. identity k r \<notin> identities k M) new = []"
  by (induction new) auto

subsection \<open>Facts about the setters\<close>

lemma cache_of_store:
  "cache_of coll (cache_store coll' t data c) =
     (if coll = coll' then (cache_of coll c)(t \<mapsto> data) else cache_of coll c)"
  by (cases coll; cases coll') simp_all

lemma base_dir_store [simp]: "base_dir (cache_store coll t data c) = base_dir c"
  by (cases coll) simp_all

lemma line_items_store [simp]: "line_items_cache (cache_store coll t data c) = line_items_cache c"
  by (cases coll) simp_all

lemma cache_of_base_dir_update [simp]: "cache_of coll (c\<lparr>base_dir := d\<rparr>) = cache_of coll c"
  by (cases coll) simp_all

lemma cache_of_line_items_update [simp]:
  "cache_of coll (c\<lparr>line_items_cache := m\<rparr>) = cache_of coll c"
  by (cases coll) simp_all

lemma set_collection_raised:
  "merge_data (cache_of coll c t) data (key_field_of coll) = Inl e \<Longrightarrow>
   set_collection coll c t data = (Some e, c)"
  by (simp add: set_collection_def)

lemma cache_of_set_collection:
  "merge_data (cache_of coll c t) data (key_field_of coll) = Inr M \<Longrightarrow>
   cache_of coll' (snd (set_collection coll c t data)) =
     (if coll' = coll then (cache_of coll c)(t \<mapsto> M) else cache_of coll' c)"
  by (simp add: set_collection_def Let_def cache_of_store split: sum.splits)

lemma line_items_set_collection:
  "line_items_cache (snd (set_collection coll c t data)) = line_items_cache c"
  by (simp add: set_collection_def Let_def split: sum.splits)

lemma fst_set_collection:
  "merge_data (cache_of coll c t) data (key_field_of coll) = Inr M \<Longrightarrow>
   fst (set_collection coll c t data) \<noteq> Some KeyError"
  by (auto simp: set_collection_def Let_def ensure_ticker_dir_def
      split: sum.splits option.splits entry.splits)

lemma file_of_write: "file_of coll (file_write coll data f) = Some (Doc data)"
  by (cases coll) simp_all

lemma ensure_ticker_dir_Inr:
  "ensure_ticker_dir d t = Inr d' \<Longrightarrow>
   \<exists>f. map_of (entries d') t = Some (TickerDir f) \<and>
       (\<forall>t'. t' \<noteq> t \<longrightarrow> map_of (entries d') t' = map_of (entries d) t')"
  by (auto simp: ensure_ticker_dir_def map_add_def split: option.splits entry.splits)

lemma map_of_save_file:
  "map_of (entries (save_file d t w)) =
   (map_of (entries d))(t := map_option (write_in w) (map_of (entries d) t))"
  by (cases d) (auto simp: save_file_def map_of_map_entry fun_eq_iff split: option.splits)

lemma set_collection_file:
  assumes "set_collection coll c t data = (None, c')"
  shows "\<exists>M. merge_data (cache_of coll c t) data (key_field_of coll) = Inr M \<and>
             file_on_disk coll (base_dir c') t = Some (Doc M)"
proof -
  from assms obtain M where M: "merge_data (cache_of coll c t) data (key_field_of coll) = Inr M"
    by (cases "merge_data (cache_of coll c t) data (key_field_of coll)")
       (auto simp: set_collection_def)
  from assms M obtain d where d: "ensure_ticker_dir (base_dir c) t = Inr d"
    and c': "c' = (cache_store coll t M c)\<lparr>base_dir := save_file d t (file_write coll M)\<rparr>"
    by (auto simp: set_collection_def Let_def split: sum.splits)
  from ensure_ticker_dir_Inr [OF d] obtain f where "map_of (entries d) t = Some (TickerDir f)"
    by blast
  then have "file_on_disk coll (base_dir c') t = Some (Doc M)"
    by (simp add: c' file_on_disk_def map_of_save_file file_of_write)
  with M show ?thesis by blast
qed

lemma well_keyed_Nil: "well_keyed k []"
  by (simp add: well_keyed_def)

lemma merge_data_well_keyed:
  assumes E: "well_keyed k (stored E)" and I: "well_keyed k new"
  shows "\<exists>M. merge_data E new k = Inr M \<and> well_keyed k M"
proof -
  from E I obtain M where M: "merge_data E new k = Inr M"
    using merge_data_total [of E k new] by (auto simp: well_keyed_def)
  let ?adm = "\<lambda>r. identity k r \<notin> identities k (stored E)"
  have shape: "M = stored E @ filter ?adm new"
    using merge_data_returns [OF M] .
  have "distinct (map (identity k) (filter ?adm new))"
    using I by (simp add: well_keyed_def distinct_map_filter)
  moreover have "set (map (identity k) (stored E)) \<inter> set (map (identity k) (filter ?adm new)) = {}"
    by (auto simp: identities_def) (metis imageI)
  ultimately have "distinct (map (identity k) M)"
    using E by (simp add: shape well_keyed_def)
  moreover have "\<forall>r\<in>set M. has_field k r"
    using E I by (auto simp: shape well_keyed_def)
  ultimately show ?thesis using M by (simp add: well_keyed_def)
qed

lemma cache_of_set_line_items:
  "cache_of coll (snd (set_line_items c t fs e p data)) = cache_of coll c"
  by (simp add: set_line_items_def Let_def split: sum.splits)

lemma after_well_keyed:
  assumes inv: "\<forall>t. well_keyed (key_field_of coll) (stored (cache_of coll c t))"
    and ok: "batches_well_keyed coll call"
  shows "\<forall>t. well_keyed (key_field_of coll) (stored (cache_of coll (after c call) t))"
proof (cases call)
  case (Set coll' ticker data)
  show ?thesis
  proof (cases "merge_data (cache_of coll' c ticker) data (key_field_of coll')")
    case (Inl e)
    then show ?thesis using inv Set by (simp add: set_collection_raised)
  next
    case (Inr M)
    show ?thesis
    proof (cases "coll' = coll")
      case False
      then show ?thesis using inv Set by (simp add: cache_of_set_collection [OF Inr])
    next
      case True
      with ok Set have "well_keyed (key_field_of coll) data" by simp
      with inv have "\<exists>M'. merge_data (cache_of coll c ticker) data (key_field_of coll) = Inr M' \<and>
                       well_keyed (key_field_of coll) M'"
        by (intro merge_data_well_keyed) simp_all
      with Inr True have "well_keyed (key_field_of coll) M" by simp
      moreover from Inr True
      have "cache_of coll (snd (set_collection coll c ticker data)) = (cache_of coll c)(ticker \<mapsto> M)"
        using cache_of_set_collection [of coll c ticker data M coll] by simp
      ultimately show ?thesis using inv Set True by simp
    qed
  qed
qed (use inv in \<open>simp_all add: cache_of_set_line_items\<close>)

subsection \<open>Facts about loading\<close>

lemma base_dir_empty_cache [simp]: "base_dir (empty_cache d) = d"
  by (simp add: empty_cache_def)

lemma line_items_empty_cache [simp]: "line_items_cache (empty_cache d) t = None"
  by (simp add: empty_cache_def)

lemma cache_of_empty_cache: "cache_of coll (empty_cache d) t = None"
  by (cases coll) (simp_all add: empty_cache_def)

lemma load_file_frame:
  "(\<And>data c. g (u data c) = g c) \<Longrightarrow> g (load_file f u c) = g c"
  by (cases "(f, u, c)" rule: load_file.cases) simp_all

lemmas load_file_frames =
  load_file_frame [where g = prices_cache]
  load_file_frame [where g = financial_metrics_cache]
  load_file_frame [where g = line_items_cache]
  load_file_frame [where g = insider_trades_cache]
  load_file_frame [where g = company_news_cache]
  load_file_frame [where g = base_dir]

lemma load_file_at:
  "g (load_file f u c) = (case f of Some (Doc data) \<Rightarrow> g (u data c) | _ \<Rightarrow> g c)"
  by (cases "(f, u, c)" rule: load_file.cases) simp_all

lemma base_dir_load_entry: "base_dir (load_entry e c) = base_dir c"
  by (cases "(e, c)" rule: load_entry.cases) (simp_all add: Let_def load_file_frames)


lemma base_dir_fold_load: "base_dir (fold load_entry es c) = base_dir c"
  by (induction es arbitrary: c) (simp_all add: base_dir_load_entry)

lemma base_dir_new_cache: "base_dir (new_cache d) = Some (entries d)"
  by (cases d) (simp_all add: new_cache_def load_cache_def base_dir_fold_load)

lemma prices_load_entry:
  "prices_cache (load_entry (n, TickerDir f) c) =
     (case prices_json f of
        Some (Doc data) \<Rightarrow> (prices_cache c)(n \<mapsto> data)
      | _ \<Rightarrow> prices_cache c)"
  apply (simp only: load_entry.simps Let_def)
  apply (simp add: load_file_frames)?
  apply (subst load_file_at [where g = prices_cache])
  apply (simp add: load_file_frames split: option.splits json_file.splits)
  done

lemma financial_metrics_load_entry:
  "financial_metrics_cache (load_entry (n, TickerDir f) c) =
     (case financial_metrics_json f of
        Some (Doc data) \<Rightarrow> (financial_metrics_cache c)(n \<mapsto> data)
      | _ \<Rightarrow> financial_metrics_cache c)"
  apply (simp only: load_entry.simps Let_def)
  apply (simp add: load_file_frames)?
  apply (subst load_file_at [where g = financial_metrics_cache])
  apply (simp add: load_file_frames split: option.splits json_file.splits)
  done

lemma line_items_load_entry:
  "line_items_cache (load_entry (n, TickerDir f) c) =
     (case line_items_json f of
        Some (Doc data) \<Rightarrow> (line_items_cache c)(n \<mapsto> data)
      | _ \<Rightarrow> line_items_cache c)"
  apply (simp only: load_entry.simps Let_def)
  apply (simp add: load_file_frames)?
  apply (subst load_file_at [where g = line_items_cache])
  apply (simp add: load_file_frames split: option.splits json_file.splits)
  done

lemma insider_trades_load_entry:
  "insider_trades_cache (load_entry (n, TickerDir f) c) =
     (case insider_trades_json f of
        Some (Doc data) \<Rightarrow> (insider_trades_cache c)(n \<mapsto> data)
      | _ \<Rightarrow> insider_trades_cache c)"
  apply (simp only: load_entry.simps Let_def)
  apply (simp add: load_file_frames)?
  apply (subst load_file_at [where g = insider_trades_cache])
  apply (simp add: load_file_frames split: option.splits json_file.splits)
  done

lemma company_news_load_entry:
  "company_news_cache (load_entry (n, TickerDir f) c) =
     (case company_news_json f of
        Some (Doc data) \<Rightarrow> (company_news_cache c)(n \<mapsto> data)
      | _ \<Rightarrow> company_news_cache c)"
  apply (simp only: load_entry.simps Let_def)
  apply (simp add: load_file_frames)?
  apply (subst load_file_at [where g = company_news_cache])
  apply (simp add: load_file_frames split: option.splits json_file.splits)
  done

lemma cache_of_load_entry:
  "cache_of coll (load_entry (n, TickerDir f) c) =
     (case file_of coll f of
        Some (Doc data) \<Rightarrow> (cache_of coll c)(n \<mapsto> data)
      | _ \<Rightarrow> cache_of coll c)"
  by (cases coll)
     (simp_all only: cache_of.simps file_of.simps prices_load_entry
        financial_metrics_load_entry insider_trades_load_entry company_news_load_entry)

declare load_entry.simps [simp del]

lemma load_entry_Plain [simp]: "load_entry (n, Plain) c = c"
  by (simp add: load_entry.simps)

lemma cache_of_fold_load:
  "\<forall>f. (t, TickerDir f) \<in> set es \<longrightarrow> file_of coll f = None \<Longrightarrow>
   cache_of coll (fold load_entry es c) t = cache_of coll c t"
proof (induction es arbitrary: c)
  case Nil
  show ?case by simp
next
  case (Cons e es)
  obtain n x where e: "e = (n, x)" by (cases e)
  have "cache_of coll (load_entry e c) t = cache_of coll c t"
  proof (cases x)
    case Plain
    then show ?thesis by (simp add: e)
  next
    case (TickerDir f)
    show ?thesis
    proof (cases "n = t")
      case True
      have "(t, TickerDir f) \<in> set (e # es)" using e TickerDir True by simp
      with Cons.prems have "file_of coll f = None" by blast
      then show ?thesis by (simp add: e TickerDir cache_of_load_entry)
    next
      case False
      then show ?thesis
        by (simp add: e TickerDir cache_of_load_entry split: option.splits json_file.splits)
    qed
  qed
  moreover have "\<forall>f. (t, TickerDir f) \<in> set es \<longrightarrow> file_of coll f = None"
    using Cons.prems by (meson list.set_intros(2))
  ultimately show ?case using Cons.IH [of "load_entry e c"] by simp
qed

lemma line_items_fold_load:
  "\<forall>f. (t, TickerDir f) \<in> set es \<longrightarrow> line_items_json f = None \<Longrightarrow>
   line_items_cache (fold load_entry es c) t = line_items_cache c t"
proof (induction es arbitrary: c)
  case Nil
  show ?case by simp
next
  case (Cons e es)
  obtain n x where e: "e = (n, x)" by (cases e)
  have "line_items_cache (load_entry e c) t = line_items_cache c t"
  proof (cases x)
    case Plain
    then show ?thesis by (simp add: e)
  next
    case (TickerDir f)
    show ?thesis
    proof (cases "n = t")
      case True
      have "(t, TickerDir f) \<in> set (e # es)" using e TickerDir True by simp
      with Cons.prems have "line_items_json f = None" by blast
      then show ?thesis by (simp add: e TickerDir line_items_load_entry)
    next
      case False
      then show ?thesis
        by (simp add: e TickerDir line_items_load_entry split: option.splits json_file.splits)
    qed
  qed
  moreover have "\<forall>f. (t, TickerDir f) \<in> set es \<longrightarrow> line_items_json f = None"
    using Cons.prems by (meson list.set_intros(2))
  ultimately show ?case using Cons.IH [of "load_entry e c"] by simp
qed

lemma cache_of_new_cache:
  assumes "\<forall>f. (t, TickerDir f) \<in> set (entries d) \<longrightarrow> file_of coll f = None"
  shows "cache_of coll (new_cache d) t = None"
proof (cases d)
  case None
  then show ?thesis
    by (simp add: new_cache_def load_cache_def cache_of_empty_cache)
next
  case (Some es)
  with assms have "cache_of coll (fold load_entry es (empty_cache d)) t = None"
    by (simp add: cache_of_fold_load cache_of_empty_cache)
  with Some show ?thesis
    by (simp add: new_cache_def load_cache_def)
qed

lemma line_items_new_cache:
  "\<forall>f. (t, TickerDir f) \<in> set (entries d) \<longrightarrow> line_items_json f = None \<Longrightarrow>
   line_items_cache (new_cache d) t = None"
  by (cases d) (simp_all add: new_cache_def load_cache_def line_items_fold_load)

subsection \<open>Facts about sequences of calls\<close>

lemma set_collection_other:
  "coll' \<noteq> coll \<or> t' \<noteq> t \<Longrightarrow>
   cache_of coll (snd (set_collection coll' c t' data)) t = cache_of coll c t"
proof (cases "merge_data (cache_of coll' c t') data (key_field_of coll')")
  case (Inl e)
  then show ?thesis by (simp add: set_collection_raised)
next
  case (Inr M)
  assume "coll' \<noteq> coll \<or> t' \<noteq> t"
  then show ?thesis by (auto simp: cache_of_set_collection [OF Inr])
qed

lemma line_items_set_line_items_other:
  "t' \<noteq> t \<Longrightarrow>
   line_items_cache (snd (set_line_items c t' fs e p data)) t = line_items_cache c t"
  by (simp add: set_line_items_def Let_def split: sum.splits)

lemma cache_of_run:
  "\<forall>data. Set coll t data \<notin> set calls \<Longrightarrow>
   cache_of coll (run c calls) t = cache_of coll c t"
  unfolding run_def
proof (induction calls arbitrary: c)
  case Nil
  show ?case by simp
next
  case (Cons call calls)
  have "cache_of coll (after c call) t = cache_of coll c t"
  proof (cases call)
    case (Set coll' t' data)
    with Cons.prems have "coll' \<noteq> coll \<or> t' \<noteq> t" by auto
    then show ?thesis using Set by (simp add: set_collection_other)
  qed (simp_all add: cache_of_set_line_items)
  then show ?case using Cons by simp
qed

lemma line_items_run:
  "\<forall>fs e p data. SetLineItems t fs e p data \<notin> set calls \<Longrightarrow>
   line_items_cache (run c calls) t = line_items_cache c t"
  unfolding run_def
proof (induction calls arbitrary: c)
  case Nil
  show ?case by simp
next
  case (Cons call calls)
  have "line_items_cache (after c call) t = line_items_cache c t"
  proof (cases call)
    case (SetLineItems t' fs e p data)
    with Cons.prems have "t' \<noteq> t" by auto
    then show ?thesis using SetLineItems by (simp add: line_items_set_line_items_other)
  qed (simp_all add: line_items_set_collection)
  then show ?case using Cons by simp
qed

subsection \<open>Facts about the line items\<close>

lemma update_not_Nil: "AList.update k v al \<noteq> []"
  by (cases al) simp_all

lemma ticker_data_set_line_items:
  "ticker_data_of (snd (set_line_items c t fs e p data)) t =
   AList.update (query_key e p fs) data (ticker_data_of c t)"
  by (simp add: set_line_items_def Let_def ticker_data_of_def split: sum.splits)

lemma get_line_items_set_line_items:
  "get_line_items (snd (set_line_items c t fs e p data)) t fs' e' p' =
   (if query_key e' p' fs' = query_key e p fs then Some data
    else map_of (ticker_data_of c t) (query_key e' p' fs'))"
  by (simp add: get_line_items_def ticker_data_set_line_items update_not_Nil update_conv')

lemma get_line_items_map_of:
  "get_line_items c t fs e p = map_of (ticker_data_of c t) (query_key e p fs)"
  by (cases "ticker_data_of c t") (simp_all add: get_line_items_def)

lemma set_line_items_file:
  assumes "fst (set_line_items c t fs e p data) = None"
  shows "line_items_on_disk (base_dir (snd (set_line_items c t fs e p data))) t =
         Some (Doc (ticker_data_of (snd (set_line_items c t fs e p data)) t))"
proof -
  let ?td = "AList.update (query_key e p fs) data (ticker_data_of c t)"
  from assms obtain d where d: "ensure_ticker_dir (base_dir c) t = Inr d"
    by (cases "ensure_ticker_dir (base_dir c) t") (auto simp: set_line_items_def Let_def)
  from ensure_ticker_dir_Inr [OF d] obtain f where f: "map_of (entries d) t = Some (TickerDir f)"
    by blast
  have "base_dir (snd (set_line_items c t fs e p data)) =
        save_file d t (\<lambda>f. f\<lparr>line_items_json := Some (Doc ?td)\<rparr>)"
    using d by (simp add: set_line_items_def Let_def)
  then show ?thesis
    using f by (simp add: line_items_on_disk_def map_of_save_file ticker_data_set_line_items)
qed

subsection \<open>Facts about directories\<close>

lemma run_gets: "\<forall>call\<in>set calls. is_get call \<Longrightarrow> run c calls = c"
  unfolding run_def
proof (induction calls arbitrary: c)
  case Nil
  show ?case by simp
next
  case (Cons call calls)
  then have "is_get call" by simp
  then have "after c call = c" by (cases call) simp_all
  with Cons show ?case by simp
qed

lemma directory_set_collection_other:
  "t' \<noteq> t \<Longrightarrow> directory_of (snd (set_collection coll c t data)) t' = directory_of c t'"
  by (auto simp: set_collection_def Let_def directory_of_def map_of_save_file
      split: sum.splits dest: ensure_ticker_dir_Inr)

lemma directory_set_line_items_other:
  "t' \<noteq> t \<Longrightarrow> directory_of (snd (set_line_items c t fs e p data)) t' = directory_of c t'"
  by (auto simp: set_line_items_def Let_def directory_of_def map_of_save_file
      split: sum.splits dest: ensure_ticker_dir_Inr)

lemma directory_set_collection:
  assumes "fst (set_collection coll c t data) = None"
  shows "\<exists>f. directory_of (snd (set_collection coll c t data)) t = Some (TickerDir f)"
proof -
  from assms obtain M where M: "merge_data (cache_of coll c t) data (key_field_of coll) = Inr M"
    by (cases "merge_data (cache_of coll c t) data (key_field_of coll)")
       (auto simp: set_collection_def)
  from assms M obtain d where d: "ensure_ticker_dir (base_dir c) t = Inr d"
    by (cases "ensure_ticker_dir (base_dir c) t") (auto simp: set_collection_def Let_def)
  from ensure_ticker_dir_Inr [OF d] obtain f where "map_of (entries d) t = Some (TickerDir f)"
    by blast
  then show ?thesis
    using M d by (simp add: set_collection_def Let_def directory_of_def map_of_save_file)
qed

lemma directory_set_line_items:
  assumes "fst (set_line_items c t fs e p data) = None"
  shows "\<exists>f. directory_of (snd (set_line_items c t fs e p data)) t = Some (TickerDir f)"
proof -
  from assms obtain d where d: "ensure_ticker_dir (base_dir c) t = Inr d"
    by (cases "ensure_ticker_dir (base_dir c) t") (auto simp: set_line_items_def Let_def)
  from ensure_ticker_dir_Inr [OF d] obtain f where "map_of (entries d) t = Some (TickerDir f)"
    by blast
  then show ?thesis
    using d by (simp add: set_line_items_def Let_def directory_of_def map_of_save_file)
qed

lemma directory_after_other:
  "ticker_of call \<noteq> t \<Longrightarrow> directory_of (after c call) t = directory_of c t"
  by (cases call) (simp_all add: directory_set_collection_other directory_set_line_items_other)

subsection \<open>Facts about the composite key\<close>

lemma sort_eq_iff_mset: "sort xs = sort ys \<longleftrightarrow> mset xs = mset ys" for xs :: "'a::linorder list"
proof
  assume "sort xs = sort ys"
  then have "mset (sort xs) = mset (sort ys)" by simp
  then show "mset xs = mset ys" by simp
next
  assume "mset xs = mset ys"
  then show "sort xs = sort ys"
    by (intro properties_for_sort) simp_all
qed

lemma split_at_first:
  assumes "c \<notin> set xs" and "c \<notin> set xs'" and "xs @ c # ys = xs' @ c # ys'"
  shows "xs = xs' \<and> ys = ys'"
proof -
  have "takeWhile (\<lambda>x. x \<noteq> c) (xs @ c # ys) = xs"
    using assms(1) by (subst takeWhile_append2) auto
  moreover have "takeWhile (\<lambda>x. x \<noteq> c) (xs' @ c # ys') = xs'"
    using assms(2) by (subst takeWhile_append2) auto
  ultimately have "xs = xs'" using assms(3) by simp
  with assms(3) show ?thesis by simp
qed

lemma join_Cons:
  "join sep (x # xs) = (if xs = [] then x else x @ sep @ join sep xs)"
  by (cases xs) simp_all

lemma join_comma_inject:
  assumes "\<forall>x\<in>set xs. plain_name x" and "\<forall>y\<in>set ys. plain_name y"
    and "join '','' xs = join '','' ys"
  shows "xs = ys"
  using assms
proof (induction xs arbitrary: ys)
  case Nil
  then show ?case
    by (cases ys) (auto simp: join_Cons plain_name_def split: if_splits)
next
  case (Cons x xs)
  note prems = Cons.prems
  show ?case
  proof (cases ys)
    case Nil
    with prems show ?thesis by (auto simp: join_Cons plain_name_def split: if_splits)
  next
    case ys: (Cons y ys')
    have x: "CHR '','' \<notin> set x" and y: "CHR '','' \<notin> set y"
      using prems ys by (simp_all add: plain_name_def)
    show ?thesis
    proof (cases "xs = []")
      case True
      show ?thesis
      proof (cases "ys' = []")
        case True
        with \<open>xs = []\<close> prems ys show ?thesis by simp
      next
        case False
        with \<open>xs = []\<close> prems(3) ys have "x = y @ CHR '','' # join '','' ys'"
          by (simp add: join_Cons)
        with x show ?thesis by simp
      qed
    next
      case False
      show ?thesis
      proof (cases "ys' = []")
        case True
        with \<open>xs \<noteq> []\<close> prems(3) ys have "y = x @ CHR '','' # join '','' xs"
          by (simp add: join_Cons)
        with y show ?thesis by simp
      next
        case False
        with \<open>xs \<noteq> []\<close> prems(3) ys
        have "x @ CHR '','' # join '','' xs = y @ CHR '','' # join '','' ys'"
          by (simp add: join_Cons)
        with x y have "x = y \<and> join '','' xs = join '','' ys'"
          by (intro split_at_first)
        then have "x = y" and "join '','' xs = join '','' ys'" by simp_all
        moreover have "xs = ys'"
          using Cons.IH [of ys'] prems ys \<open>join '','' xs = join '','' ys'\<close> by simp
        ultimately show ?thesis using ys by simp
      qed
    qed
  qed
qed

lemma query_key_inject:
  assumes "plain_part e" "plain_part e'" "plain_part p" "plain_part p'"
    and "\<forall>x\<in>set fs. plain_name x" and "\<forall>x\<in>set fs'. plain_name x"
    and "query_key e p fs = query_key e' p' fs'"
  shows "e = e' \<and> p = p' \<and> mset fs = mset fs'"
proof -
  from assms(7)
  have "e @ CHR ''_'' # (p @ CHR ''_'' # join '','' (sort fs)) =
        e' @ CHR ''_'' # (p' @ CHR ''_'' # join '','' (sort fs'))"
    by (simp add: query_key_def)
  with assms(1,2)
  have "e = e' \<and>
        p @ CHR ''_'' # join '','' (sort fs) = p' @ CHR ''_'' # join '','' (sort fs')"
    unfolding plain_part_def by (intro split_at_first)
  then have e: "e = e'"
    and rest: "p @ CHR ''_'' # join '','' (sort fs) = p' @ CHR ''_'' # join '','' (sort fs')"
    by simp_all
  from rest assms(3,4) have "p = p' \<and> join '','' (sort fs) = join '','' (sort fs')"
    unfolding plain_part_def by (intro split_at_first)
  then have p: "p = p'" and j: "join '','' (sort fs) = join '','' (sort fs')"
    by simp_all
  have "sort fs = sort fs'"
    using assms(5,6) j by (intro join_comma_inject) simp_all
  then have "mset fs = mset fs'" by (simp add: sort_eq_iff_mset)
  with e p show ?thesis by simp
qed

lemma query_key_permuted:
  assumes "mset fs = mset fs'"
  shows "query_key e p fs = query_key e p fs'"
proof -
  from assms have "sort fs = sort fs'" by (simp add: sort_eq_iff_mset)
  then show ?thesis by (simp add: query_key_def)
qed

lemma revenue_keys_differ:
  "query_key e p [''revenue''] \<noteq> query_key e p [''revenue'', ''net_income'']"
  by (simp add: query_key_def)

section \<open>The merge engine\<close>

text \<open>
  Claim C5. When the existing collection is absent (\<open>None\<close>) or empty, \<open>_merge_data\<close> returns
  the incoming list itself, whatever its records are and whatever the identity field is:
  nothing is filtered and no record is inspected.
\<close>

theorem merge_data_empty_existing:
  "merge_data None new_data key_field = Inr new_data \<and>
   merge_data (Some []) new_data key_field = Inr new_data"
  by (simp add: merge_data_def)

text \<open>
  Claim C2. With a non-empty existing collection (all records carrying the identity field),
  the merge returns the existing records followed by exactly those incoming records whose
  identity value does not occur in the existing collection. The test never looks at the
  records appended so far: for an identity value \<open>v\<close> that the existing collection does not
  have, the records of the result with identity \<open>v\<close> are all the incoming records with
  identity \<open>v\<close>, however many there are.
\<close>

theorem merge_data_admits_against_existing_only:
  assumes "existing \<noteq> []"
    and "\<forall>r\<in>set existing. has_field key_field r"
    and "\<forall>r\<in>set new_data. has_field key_field r"
  shows "\<exists>merged. merge_data (Some existing) new_data key_field = Inr merged \<and>
           merged = existing @
             filter (\<lambda>r. identity key_field r \<notin> identities key_field existing) new_data \<and>
           (\<forall>v. v \<notin> identities key_field existing \<longrightarrow>
              filter (\<lambda>r. identity key_field r = v) merged =
              filter (\<lambda>r. identity key_field r = v) new_data)"
proof -
  let ?adm = "\<lambda>r. identity key_field r \<notin> identities key_field existing"
  have dup: "filter (\<lambda>r. identity key_field r = v) (existing @ filter ?adm new_data) =
             filter (\<lambda>r. identity key_field r = v) new_data"
    if v: "v \<notin> identities key_field existing" for v
  proof -
    have "filter (\<lambda>r. identity key_field r = v) existing = []"
      using v by (auto simp: identities_def filter_empty_conv)
    moreover have "filter (\<lambda>r. identity key_field r = v) (filter ?adm new_data) =
                   filter (\<lambda>r. identity key_field r = v) new_data"
      using v by (auto intro: filter_cong)
    ultimately show ?thesis by simp
  qed
  show ?thesis
    using merge_data_warm [OF assms] dup by blast
qed

theorem merge_data_admits_against_existing_only_witness:
  "Some (KStr ''2024-01-02'') \<notin>
     identities ''time'' [[(''time'', VStr ''2024-01-01''), (''close'', VInt 100)]] \<and>
   merge_data (Some [[(''time'', VStr ''2024-01-01''), (''close'', VInt 100)]])
     [[(''time'', VStr ''2024-01-02''), (''close'', VInt 101)],
      [(''time'', VStr ''2024-01-02''), (''close'', VInt 102)],
      [(''time'', VStr ''2024-01-01''), (''close'', VInt 103)]] ''time'' =
   Inr [[(''time'', VStr ''2024-01-01''), (''close'', VInt 100)],
        [(''time'', VStr ''2024-01-02''), (''close'', VInt 101)],
        [(''time'', VStr ''2024-01-02''), (''close'', VInt 102)]]"
  using merge_data_admits_against_existing_only
    [of "[[(''time'', VStr ''2024-01-01''), (''close'', VInt 100)]]" "''time''"
        "[[(''time'', VStr ''2024-01-02''), (''close'', VInt 101)],
          [(''time'', VStr ''2024-01-02''), (''close'', VInt 102)],
          [(''time'', VStr ''2024-01-01''), (''close'', VInt 103)]]"]
  by (simp add: has_field_def identity_def identities_def)

text \<open>
  Claim C4. Whenever the merge returns, its result is the existing collection, unchanged
  and in its order, followed by the admitted incoming records in their incoming order
  (a \<open>filter\<close> of the incoming list); nothing is sorted. The merge does return when all
  records carry the identity field.
\<close>

theorem merge_data_preserves_order:
  "(\<forall>merged. merge_data existing new_data key_field = Inr merged \<longrightarrow>
      merged = stored existing @
        filter (\<lambda>r. identity key_field r \<notin> identities key_field (stored existing)) new_data) \<and>
   ((\<forall>r\<in>set (stored existing). has_field key_field r) \<and>
    (\<forall>r\<in>set new_data. has_field key_field r) \<longrightarrow>
      (\<exists>merged. merge_data existing new_data key_field = Inr merged))"
  using merge_data_returns merge_data_total by blast

theorem merge_data_preserves_order_witness:
  "merge_data (Some [[(''date'', VStr ''2024-03-02'')], [(''date'', VStr ''2024-03-01'')]])
     [[(''date'', VStr ''2024-03-05'')], [(''date'', VStr ''2024-03-02'')],
      [(''date'', VStr ''2024-03-04'')]] ''date'' =
   Inr [[(''date'', VStr ''2024-03-02'')], [(''date'', VStr ''2024-03-01'')],
        [(''date'', VStr ''2024-03-05'')], [(''date'', VStr ''2024-03-04'')]]"
  using merge_data_preserves_order
    [of "Some [[(''date'', VStr ''2024-03-02'')], [(''date'', VStr ''2024-03-01'')]]"
        "[[(''date'', VStr ''2024-03-05'')], [(''date'', VStr ''2024-03-02'')],
          [(''date'', VStr ''2024-03-04'')]]" "''date''"]
  by (auto simp: has_field_def identity_def identities_def)

text \<open>
  Claim C3. Merging the same batch a second time changes nothing: when all records of the
  existing collection and of the batch carry the identity field, the merge returns a list
  \<open>M\<close>, and merging the batch into \<open>M\<close> returns \<open>M\<close> again.
\<close>

theorem merge_data_idempotent:
  assumes "\<forall>r\<in>set (stored existing). has_field key_field r"
    and "\<forall>r\<in>set new_data. has_field key_field r"
  shows "\<exists>merged. merge_data existing new_data key_field = Inr merged \<and>
           merge_data (Some merged) new_data key_field = Inr merged"
proof -
  from merge_data_total [OF assms] obtain M
    where M: "merge_data existing new_data key_field = Inr M" by blast
  let ?adm = "\<lambda>r. identity key_field r \<notin> identities key_field (stored existing)"
  have shape: "M = stored existing @ filter ?adm new_data"
    using merge_data_returns [OF M] .
  have fields: "\<forall>r\<in>set M. has_field key_field r"
    using assms shape by auto
  have known: "\<forall>r\<in>set new_data. identity key_field r \<in> identities key_field M"
  proof
    fix r
    assume r: "r \<in> set new_data"
    show "identity key_field r \<in> identities key_field M"
    proof (cases "?adm r")
      case True
      with r have "r \<in> set M" by (simp add: shape)
      then show ?thesis by (auto simp: identities_def)
    next
      case False
      then show ?thesis by (auto simp: shape identities_def)
    qed
  qed
  have "merge_data (Some M) new_data key_field = Inr M"
  proof (cases "M = []")
    case True
    with shape have "stored existing = []" by simp
    with M have "M = new_data" by (simp add: merge_data_cold)
    with True show ?thesis by (simp add: merge_data_cold)
  next
    case False
    show ?thesis
      using merge_data_warm [OF False fields assms(2)] filter_known_identities [OF known]
      by simp
  qed
  with M show ?thesis by blast
qed

theorem merge_data_idempotent_witness:
  "\<exists>merged.
     merge_data (Some [[(''filing_date'', VStr ''2024-02-01'')]])
       [[(''filing_date'', VStr ''2024-02-01'')], [(''filing_date'', VStr ''2024-02-09'')],
        [(''filing_date'', VStr ''2024-02-09''), (''name'', VNone)]] ''filing_date'' =
       Inr merged \<and>
     merge_data (Some merged)
       [[(''filing_date'', VStr ''2024-02-01'')], [(''filing_date'', VStr ''2024-02-09'')],
        [(''filing_date'', VStr ''2024-02-09''), (''name'', VNone)]] ''filing_date'' =
       Inr merged"
  using merge_data_idempotent
    [of "Some [[(''filing_date'', VStr ''2024-02-01'')]]" "''filing_date''"
        "[[(''filing_date'', VStr ''2024-02-01'')], [(''filing_date'', VStr ''2024-02-09'')],
          [(''filing_date'', VStr ''2024-02-09''), (''name'', VNone)]]"]
  by (simp add: has_field_def)

section \<open>The merged collections of the cache\<close>

text \<open>
  Claim C10. For each of the four merged collections: when the stored list of the ticker is
  non-empty and some incoming record lacks the identity field, the setter raises \<open>KeyError\<close>
  and leaves the whole state as it was, dictionaries and directory alike. When the stored
  list is empty or absent, the same batch is stored as it is: the setter raises no
  \<open>KeyError\<close>, the getter then returns the batch, and the file holds it once the call has
  returned.
\<close>

theorem set_collection_malformed_batch:
  "(\<forall>existing. cache_of coll c ticker = Some existing \<and> existing \<noteq> [] \<and>
       (\<exists>r\<in>set data. \<not> has_field (key_field_of coll) r) \<longrightarrow>
       set_collection coll c ticker data = (Some KeyError, c)) \<and>
   (stored (cache_of coll c ticker) = [] \<longrightarrow>
       fst (set_collection coll c ticker data) \<noteq> Some KeyError \<and>
       get_collection coll (snd (set_collection coll c ticker data)) ticker = Some data \<and>
       (fst (set_collection coll c ticker data) = None \<longrightarrow>
          file_on_disk coll (base_dir (snd (set_collection coll c ticker data))) ticker =
            Some (Doc data)))"
proof (intro conjI allI impI)
  fix existing
  assume "cache_of coll c ticker = Some existing \<and> existing \<noteq> [] \<and>
       (\<exists>r\<in>set data. \<not> has_field (key_field_of coll) r)"
  then show "set_collection coll c ticker data = (Some KeyError, c)"
    using merge_data_warm_raises [of existing "key_field_of coll" data]
    by (simp add: set_collection_raised)
next
  assume cold: "stored (cache_of coll c ticker) = []"
  then have M: "merge_data (cache_of coll c ticker) data (key_field_of coll) = Inr data"
    by (rule merge_data_cold)
  show "fst (set_collection coll c ticker data) \<noteq> Some KeyError"
    using fst_set_collection [OF M] .
  show "get_collection coll (snd (set_collection coll c ticker data)) ticker = Some data"
    by (simp add: get_collection_def cache_of_set_collection [OF M])
  assume "fst (set_collection coll c ticker data) = None"
  then have "set_collection coll c ticker data = (None, snd (set_collection coll c ticker data))"
    by (simp add: prod_eq_iff)
  from set_collection_file [OF this] M
  show "file_on_disk coll (base_dir (snd (set_collection coll c ticker data))) ticker =
            Some (Doc data)" by simp
qed


theorem set_collection_malformed_batch_witness:
  "set_prices warm_cache ''AAPL'' [[(''time'', VStr ''2024-01-02'')], [(''close'', VInt 101)]] =
     (Some KeyError, warm_cache) \<and>
   get_prices (snd (set_prices warm_cache ''MSFT''
     [[(''time'', VStr ''2024-01-02'')], [(''close'', VInt 101)]])) ''MSFT'' =
     Some [[(''time'', VStr ''2024-01-02'')], [(''close'', VInt 101)]]"
  using set_collection_malformed_batch
      [of Prices warm_cache "''AAPL''" "[[(''time'', VStr ''2024-01-02'')], [(''close'', VInt 101)]]"]
    set_collection_malformed_batch
      [of Prices warm_cache "''MSFT''" "[[(''time'', VStr ''2024-01-02'')], [(''close'', VInt 101)]]"]
  by (simp add: set_prices_def get_prices_def warm_cache_def has_field_def)

text \<open>
  Claim C1, as amended. The claim fails for a batch that repeats an identity value: the
  merge compares incoming records with the existing ones only, and stores a first batch
  unexamined. What holds: if the stored lists of a collection are well keyed to begin with
  and every batch written to the collection is well keyed, then after any sequence of calls
  every stored list of the collection is well keyed, so no two of its records share an
  identity value.
\<close>

theorem set_collection_unique_identities:
  assumes "\<forall>ticker. well_keyed (key_field_of coll) (stored (cache_of coll c ticker))"
    and "\<forall>call\<in>set calls. batches_well_keyed coll call"
  shows "\<forall>ticker. well_keyed (key_field_of coll) (stored (get_collection coll (run c calls) ticker))"
  using assms unfolding run_def get_collection_def
proof (induction calls arbitrary: c)
  case Nil
  then show ?case by simp
next
  case (Cons call calls)
  have "\<forall>t. well_keyed (key_field_of coll) (stored (cache_of coll (after c call) t))"
    using after_well_keyed [of coll c call] Cons.prems by simp
  then show ?case using Cons.IH [of "after c call"] Cons.prems(2) by simp
qed

theorem set_collection_unique_identities_witness:
  "well_keyed ''time''
     (stored (get_prices
        (run (empty_cache None)
           [Set Prices ''AAPL'' [[(''time'', VStr ''2024-01-01''), (''close'', VInt 100)]],
            Set Prices ''AAPL'' [[(''time'', VStr ''2024-01-01''), (''close'', VInt 100)],
                                [(''time'', VStr ''2024-01-02''), (''close'', VInt 101)]],
            Get Prices ''AAPL''])
        ''AAPL''))"
proof -
  let ?calls =
    "[Set Prices ''AAPL'' [[(''time'', VStr ''2024-01-01''), (''close'', VInt 100)]],
      Set Prices ''AAPL'' [[(''time'', VStr ''2024-01-01''), (''close'', VInt 100)],
                          [(''time'', VStr ''2024-01-02''), (''close'', VInt 101)]],
      Get Prices ''AAPL'']"
  have init: "\<forall>ticker. well_keyed (key_field_of Prices)
                (stored (cache_of Prices (empty_cache None) ticker))"
    by (simp only: cache_of_empty_cache stored.simps well_keyed_Nil simp_thms)
  have batches: "\<forall>call\<in>set ?calls. batches_well_keyed Prices call"
    by (simp add: well_keyed_def has_field_def identity_def)
  from set_collection_unique_identities [OF init batches]
  show ?thesis by (simp add: get_prices_def)
qed

text \<open>
  The counterexample to C1 as stated: on a new cache over a missing directory, one call of
  \<open>set_prices\<close> with two bars of the same \<open>time\<close> stores both.
\<close>

theorem set_prices_stores_duplicates: "get_prices (snd (set_prices (new_cache None) ''AAPL''
       [[(''time'', VStr ''2024-01-01''), (''close'', VInt 100)],
        [(''time'', VStr ''2024-01-01''), (''close'', VInt 101)]])) ''AAPL'' =
     Some [[(''time'', VStr ''2024-01-01''), (''close'', VInt 100)],
           [(''time'', VStr ''2024-01-01''), (''close'', VInt 101)]] \<and>
   identity ''time'' [(''time'', VStr ''2024-01-01''), (''close'', VInt 100)] =
   identity ''time'' [(''time'', VStr ''2024-01-01''), (''close'', VInt 101)]"
  by (simp add: get_prices_def set_prices_def get_collection_def set_collection_def
      new_cache_def empty_cache_def load_cache_def merge_data_def ensure_ticker_dir_def
      identity_def)

text \<open>
  Claim C7. A cache is constructed over a directory that has no file of the collection for
  the ticker, and then any calls are made, none of them a setter of that collection for that
  ticker. Then the getter returns \<open>None\<close>, for each merged collection and for the line
  items (with any query). \<open>None\<close> is not the empty list: after a setter has stored \<open>[]\<close>
  for a ticker, the getter returns \<open>Some []\<close>.
\<close>

theorem get_of_unwritten_ticker:
  "((\<forall>f. (ticker, TickerDir f) \<in> set (entries d) \<longrightarrow> file_of coll f = None) \<and>
    (\<forall>data. Set coll ticker data \<notin> set calls) \<longrightarrow>
      get_collection coll (run (new_cache d) calls) ticker = None) \<and>
   ((\<forall>f. (ticker, TickerDir f) \<in> set (entries d) \<longrightarrow> line_items_json f = None) \<and>
    (\<forall>fs e p data. SetLineItems ticker fs e p data \<notin> set calls) \<longrightarrow>
      get_line_items (run (new_cache d) calls) ticker line_items end_date period = None) \<and>
   (stored (get_collection coll c ticker) = [] \<longrightarrow>
      get_collection coll (snd (set_collection coll c ticker [])) ticker = Some []) \<and>
   get_line_items (snd (set_line_items c ticker line_items end_date period [])) ticker
      line_items end_date period = Some []"
proof (intro conjI impI)
  assume "(\<forall>f. (ticker, TickerDir f) \<in> set (entries d) \<longrightarrow> file_of coll f = None) \<and>
    (\<forall>data. Set coll ticker data \<notin> set calls)"
  then show "get_collection coll (run (new_cache d) calls) ticker = None"
    by (simp add: get_collection_def cache_of_run cache_of_new_cache)
next
  assume "(\<forall>f. (ticker, TickerDir f) \<in> set (entries d) \<longrightarrow> line_items_json f = None) \<and>
    (\<forall>fs e p data. SetLineItems ticker fs e p data \<notin> set calls)"
  then have "line_items_cache (run (new_cache d) calls) ticker = None"
    by (simp add: line_items_run line_items_new_cache)
  then show "get_line_items (run (new_cache d) calls) ticker line_items end_date period = None"
    by (simp add: get_line_items_def ticker_data_of_def)
next
  assume "stored (get_collection coll c ticker) = []"
  then have "merge_data (cache_of coll c ticker) [] (key_field_of coll) = Inr []"
    by (simp add: get_collection_def merge_data_cold)
  then show "get_collection coll (snd (set_collection coll c ticker [])) ticker = Some []"
    by (simp add: get_collection_def cache_of_set_collection)
next
  show "get_line_items (snd (set_line_items c ticker line_items end_date period [])) ticker
      line_items end_date period = Some []"
    by (simp add: get_line_items_def set_line_items_def ticker_data_of_def Let_def
        update_conv' split: sum.splits)
qed


theorem get_of_unwritten_ticker_witness:
  "get_prices
     (run (new_cache aapl_only)
        [Set Prices ''AAPL'' [[(''time'', VStr ''2024-01-02'')]],
         Set CompanyNews ''MSFT'' [[(''date'', VStr ''2024-01-02'')]],
         SetLineItems ''AAPL'' [''revenue''] ''2024-01-01'' ''ttm'' []]) ''MSFT'' = None \<and>
   get_line_items
     (run (new_cache aapl_only)
        [Set Prices ''AAPL'' [[(''time'', VStr ''2024-01-02'')]],
         Set CompanyNews ''MSFT'' [[(''date'', VStr ''2024-01-02'')]],
         SetLineItems ''AAPL'' [''revenue''] ''2024-01-01'' ''ttm'' []])
     ''MSFT'' [''revenue''] ''2024-01-01'' ''ttm'' = None \<and>
   get_prices (snd (set_prices (new_cache aapl_only) ''MSFT'' [])) ''MSFT'' = Some []"
proof -
  let ?calls =
    "[Set Prices ''AAPL'' [[(''time'', VStr ''2024-01-02'')]],
      Set CompanyNews ''MSFT'' [[(''date'', VStr ''2024-01-02'')]],
      SetLineItems ''AAPL'' [''revenue''] ''2024-01-01'' ''ttm'' []]"
  have files: "\<forall>f. (''MSFT'', TickerDir f) \<in> set (entries aapl_only) \<longrightarrow>
                 file_of Prices f = None"
    and items: "\<forall>f. (''MSFT'', TickerDir f) \<in> set (entries aapl_only) \<longrightarrow>
                 line_items_json f = None"
    by (simp_all add: aapl_only_def)
  have calls: "\<forall>data. Set Prices ''MSFT'' data \<notin> set ?calls"
    and item_calls: "\<forall>fs e p data. SetLineItems ''MSFT'' fs e p data \<notin> set ?calls"
    by simp_all
  note inst = get_of_unwritten_ticker
    [where ticker = "''MSFT''" and d = aapl_only and coll = Prices and calls = ?calls
       and c = "new_cache aapl_only" and line_items = "[''revenue'']"
       and end_date = "''2024-01-01''" and period = "''ttm''"]
  have unwritten: "get_collection Prices (run (new_cache aapl_only) ?calls) ''MSFT'' = None"
    using inst files calls by blast
  have no_items: "get_line_items (run (new_cache aapl_only) ?calls) ''MSFT'' [''revenue'']
                    ''2024-01-01'' ''ttm'' = None"
    using inst items item_calls by blast
  have "get_collection Prices (new_cache aapl_only) ''MSFT'' = None"
    using get_of_unwritten_ticker
      [where ticker = "''MSFT''" and d = aapl_only and coll = Prices and calls = "[]"] files
    by (simp add: run_def)
  then have "get_collection Prices
               (snd (set_collection Prices (new_cache aapl_only) ''MSFT'' [])) ''MSFT'' = Some []"
    using inst by simp
  with unwritten no_items show ?thesis
    by (simp add: get_prices_def set_prices_def)
qed

section \<open>The line items\<close>

text \<open>
  Claim C8. \<open>set_line_items\<close> does not merge. After the call, whatever was stored before,
  the query returns the given records and the ticker's dictionary holds them under the key
  of the query; every other key of the ticker's dictionary has the value it had. When the
  call returns, the ticker's file holds the ticker's dictionary.
\<close>

theorem set_line_items_replaces:
  "get_line_items (snd (set_line_items c ticker line_items end_date period data)) ticker
     line_items end_date period = Some data \<and>
   map_of (ticker_data_of (snd (set_line_items c ticker line_items end_date period data)) ticker)
     (query_key end_date period line_items) = Some data \<and>
   (\<forall>key. key \<noteq> query_key end_date period line_items \<longrightarrow>
      map_of (ticker_data_of (snd (set_line_items c ticker line_items end_date period data))
        ticker) key = map_of (ticker_data_of c ticker) key) \<and>
   (fst (set_line_items c ticker line_items end_date period data) = None \<longrightarrow>
      line_items_on_disk
        (base_dir (snd (set_line_items c ticker line_items end_date period data))) ticker =
      Some (Doc (ticker_data_of
        (snd (set_line_items c ticker line_items end_date period data)) ticker)))"
  by (simp add: get_line_items_set_line_items ticker_data_set_line_items update_conv'
      set_line_items_file)

theorem set_line_items_replaces_witness:
  "get_line_items
     (snd (set_line_items items_cache ''AAPL'' [''revenue''] ''2024-01-01'' ''ttm''
        [[(''revenue'', VInt 2)]]))
     ''AAPL'' [''revenue''] ''2024-01-01'' ''ttm'' = Some [[(''revenue'', VInt 2)]] \<and>
   map_of (ticker_data_of
     (snd (set_line_items items_cache ''AAPL'' [''revenue''] ''2024-01-01'' ''ttm''
        [[(''revenue'', VInt 2)]])) ''AAPL'') ''2024-01-01_annual_revenue'' =
     Some [[(''revenue'', VInt 7)]] \<and>
   line_items_on_disk
     (base_dir (snd (set_line_items items_cache ''AAPL'' [''revenue''] ''2024-01-01'' ''ttm''
        [[(''revenue'', VInt 2)]]))) ''AAPL'' =
     Some (Doc (ticker_data_of
       (snd (set_line_items items_cache ''AAPL'' [''revenue''] ''2024-01-01'' ''ttm''
          [[(''revenue'', VInt 2)]])) ''AAPL''))"
proof -
  note inst = set_line_items_replaces
    [where c = items_cache and ticker = "''AAPL''" and line_items = "[''revenue'']"
       and end_date = "''2024-01-01''" and period = "''ttm''"
       and data = "[[(''revenue'', VInt 2)]]"]
  have other: "''2024-01-01_annual_revenue'' \<noteq> query_key ''2024-01-01'' ''ttm'' [''revenue'']"
    by (simp add: query_key_def)
  have returned: "fst (set_line_items items_cache ''AAPL'' [''revenue''] ''2024-01-01'' ''ttm''
                    [[(''revenue'', VInt 2)]]) = None"
    by (simp add: set_line_items_def Let_def ensure_ticker_dir_def items_cache_def)
  have before: "map_of (ticker_data_of items_cache ''AAPL'') ''2024-01-01_annual_revenue'' =
                Some [[(''revenue'', VInt 7)]]"
    by (simp add: ticker_data_of_def items_cache_def)
  from inst other returned before show ?thesis by simp
qed

text \<open>
  Claim C6, as amended. The key is the concatenation of end date, period and the sorted,
  comma-joined field names, separated by underscores, so it is not injective on arbitrary
  strings: an underscore can be read as part of the end date or of the period. What holds:
  \<^item> two field lists that are permutations of each other give the same key, and the query
    with one list returns what was stored with the other;
  \<^item> for end dates and periods without underscore and field names that are non-empty and
    without comma, queries that differ in the end date, the period or the fields (as a
    multiset) have different keys, and storing under one leaves the other query's result
    as it was;
  \<^item> after \<open>set_line_items(T, ["revenue"], D, P, R1)\<close> and
    \<open>set_line_items(T, ["revenue", "net_income"], D, P, R2)\<close> the two queries return
    \<open>R1\<close> and \<open>R2\<close>, for all \<open>T\<close>, \<open>D\<close>, \<open>P\<close>.
\<close>

theorem line_items_key_discriminates:
  "(mset line_items = mset line_items' \<longrightarrow>
      query_key end_date period line_items = query_key end_date period line_items' \<and>
      get_line_items (snd (set_line_items c ticker line_items end_date period data)) ticker
        line_items' end_date period = Some data) \<and>
   (plain_part end_date \<and> plain_part end_date' \<and> plain_part period \<and> plain_part period' \<and>
    (\<forall>x\<in>set line_items. plain_name x) \<and> (\<forall>x\<in>set line_items'. plain_name x) \<and>
    \<not> (end_date = end_date' \<and> period = period' \<and> mset line_items = mset line_items') \<longrightarrow>
      query_key end_date period line_items \<noteq> query_key end_date' period' line_items' \<and>
      get_line_items (snd (set_line_items c ticker line_items end_date period data)) ticker
        line_items' end_date' period' = get_line_items c ticker line_items' end_date' period') \<and>
   get_line_items
     (snd (set_line_items (snd (set_line_items c ticker [''revenue''] end_date period r1))
        ticker [''revenue'', ''net_income''] end_date period r2))
     ticker [''revenue''] end_date period = Some r1 \<and>
   get_line_items
     (snd (set_line_items (snd (set_line_items c ticker [''revenue''] end_date period r1))
        ticker [''revenue'', ''net_income''] end_date period r2))
     ticker [''revenue'', ''net_income''] end_date period = Some r2"
proof (intro conjI impI)
  assume "mset line_items = mset line_items'"
  then show k: "query_key end_date period line_items = query_key end_date period line_items'"
    by (rule query_key_permuted)
  then show "get_line_items (snd (set_line_items c ticker line_items end_date period data)) ticker
        line_items' end_date period = Some data"
    by (simp add: get_line_items_set_line_items)
next
  assume a: "plain_part end_date \<and> plain_part end_date' \<and> plain_part period \<and> plain_part period' \<and>
    (\<forall>x\<in>set line_items. plain_name x) \<and> (\<forall>x\<in>set line_items'. plain_name x) \<and>
    \<not> (end_date = end_date' \<and> period = period' \<and> mset line_items = mset line_items')"
  then show k: "query_key end_date period line_items \<noteq> query_key end_date' period' line_items'"
    using query_key_inject [of end_date end_date' period period' line_items line_items']
    by blast
  then show "get_line_items (snd (set_line_items c ticker line_items end_date period data)) ticker
        line_items' end_date' period' = get_line_items c ticker line_items' end_date' period'"
    using get_line_items_set_line_items [of c ticker line_items end_date period data
        line_items' end_date' period']
    by (simp add: get_line_items_map_of)
next
  show "get_line_items
     (snd (set_line_items (snd (set_line_items c ticker [''revenue''] end_date period r1))
        ticker [''revenue'', ''net_income''] end_date period r2))
     ticker [''revenue''] end_date period = Some r1"
    using revenue_keys_differ [of end_date period]
    by (simp add: get_line_items_set_line_items ticker_data_set_line_items update_conv')
next
  show "get_line_items
     (snd (set_line_items (snd (set_line_items c ticker [''revenue''] end_date period r1))
        ticker [''revenue'', ''net_income''] end_date period r2))
     ticker [''revenue'', ''net_income''] end_date period = Some r2"
    by (simp add: get_line_items_set_line_items)
qed

theorem line_items_key_discriminates_witness:
  "query_key ''2024-01-01'' ''ttm'' [''revenue'', ''net_income''] =
   query_key ''2024-01-01'' ''ttm'' [''net_income'', ''revenue''] \<and>
   get_line_items
     (snd (set_line_items (empty_cache None) ''AAPL'' [''revenue'', ''net_income'']
        ''2024-01-01'' ''ttm'' [[(''revenue'', VInt 1)]]))
     ''AAPL'' [''net_income'', ''revenue''] ''2024-01-01'' ''ttm'' =
     Some [[(''revenue'', VInt 1)]] \<and>
   query_key ''2024-01-01'' ''ttm'' [''revenue'', ''net_income''] \<noteq>
   query_key ''2024-01-01'' ''annual'' [''revenue''] \<and>
   get_line_items
     (snd (set_line_items (empty_cache None) ''AAPL'' [''revenue'', ''net_income'']
        ''2024-01-01'' ''ttm'' [[(''revenue'', VInt 1)]]))
     ''AAPL'' [''revenue''] ''2024-01-01'' ''annual'' = None"
proof -
  note same = line_items_key_discriminates
    [where line_items = "[''revenue'', ''net_income'']"
       and line_items' = "[''net_income'', ''revenue'']"
       and end_date = "''2024-01-01''" and period = "''ttm''"
       and c = "empty_cache None" and ticker = "''AAPL''"
       and data = "[[(''revenue'', VInt 1)]]"]
  note other = line_items_key_discriminates
    [where line_items = "[''revenue'', ''net_income'']" and line_items' = "[''revenue'']"
       and end_date = "''2024-01-01''" and period = "''ttm''"
       and end_date' = "''2024-01-01''" and period' = "''annual''"
       and c = "empty_cache None" and ticker = "''AAPL''"
       and data = "[[(''revenue'', VInt 1)]]"]
  have permuted: "mset [''revenue'', ''net_income''] = mset [''net_income'', ''revenue'']"
    by simp
  have plain: "plain_part ''2024-01-01'' \<and> plain_part ''2024-01-01'' \<and>
               plain_part ''ttm'' \<and> plain_part ''annual'' \<and>
               (\<forall>x\<in>set [''revenue'', ''net_income'']. plain_name x) \<and>
               (\<forall>x\<in>set [''revenue'']. plain_name x) \<and>
               \<not> (''2024-01-01'' = ''2024-01-01'' \<and> ''ttm'' = ''annual'' \<and>
                  mset [''revenue'', ''net_income''] = mset [''revenue''])"
    by (simp add: plain_part_def plain_name_def)
  have empty: "get_line_items (empty_cache None) ''AAPL'' [''revenue''] ''2024-01-01''
                 ''annual'' = None"
    by (simp add: get_line_items_def ticker_data_of_def)
  from same permuted other plain empty show ?thesis by metis
qed

text \<open>
  The counterexample to C6 as stated: the queries \<open>("2024_01", "ttm")\<close> and
  \<open>("2024", "01_ttm")\<close> for the same field differ in end date and period and have the same
  key \<open>2024_01_ttm_revenue\<close>; the second write replaces what the first stored.
\<close>

theorem line_items_keys_collide:
  "get_line_items
     (run (new_cache None)
        [SetLineItems ''AAPL'' [''revenue''] ''2024_01'' ''ttm'' [[(''revenue'', VInt 1)]],
         SetLineItems ''AAPL'' [''revenue''] ''2024'' ''01_ttm'' [[(''revenue'', VInt 2)]]])
     ''AAPL'' [''revenue''] ''2024_01'' ''ttm'' = Some [[(''revenue'', VInt 2)]]"
  by (simp add: run_def get_line_items_set_line_items query_key_def)


section \<open>Directories\<close>

text \<open>
  Claim C9, as amended. The claim fails for the base directory: \<open>_load_cache\<close> creates it
  during construction when it is missing. What holds, for tickers that are path components:
  \<^item> after construction the base directory exists, with the entries it had before (none
    if it was missing): no ticker directory is created;
  \<^item> a sequence of getters leaves the cache and the directory as they are;
  \<^item> a call about one ticker leaves the directory entry of every other ticker as it was,
    both tickers being path components;
  \<^item> a setter that returns leaves a directory for its ticker, a path component.
\<close>

theorem ticker_directories_are_lazy:
  "base_dir (new_cache d) = Some (entries d) \<and>
   ((\<forall>call\<in>set calls. is_get call) \<longrightarrow> run c calls = c) \<and>
   (path_component (ticker_of call) \<and> path_component other \<and> ticker_of call \<noteq> other \<longrightarrow>
      directory_of (after c call) other = directory_of c other) \<and>
   (path_component ticker \<and> fst (set_collection coll c ticker data) = None \<longrightarrow>
      (\<exists>f. directory_of (snd (set_collection coll c ticker data)) ticker = Some (TickerDir f))) \<and>
   (path_component ticker \<and>
    fst (set_line_items c ticker line_items end_date period data) = None \<longrightarrow>
      (\<exists>f. directory_of (snd (set_line_items c ticker line_items end_date period data)) ticker =
           Some (TickerDir f)))"
  using base_dir_new_cache run_gets directory_after_other directory_set_collection
    directory_set_line_items by blast

theorem ticker_directories_are_lazy_witness:
  "path_component ''AAPL'' \<and> path_component ''MSFT'' \<and>
   base_dir (new_cache None) = Some [] \<and>
   run (new_cache None)
     [Get Prices ''AAPL'', GetLineItems ''AAPL'' [''revenue''] ''2024-01-01'' ''ttm''] =
     new_cache None \<and>
   directory_of
     (after (new_cache None) (Set Prices ''AAPL'' [[(''time'', VStr ''2024-01-01'')]]))
     ''MSFT'' = None \<and>
   (\<exists>f. directory_of
          (snd (set_prices (new_cache None) ''AAPL'' [[(''time'', VStr ''2024-01-01'')]]))
          ''AAPL'' = Some (TickerDir f)) \<and>
   (\<exists>f. directory_of
          (snd (set_line_items (new_cache None) ''AAPL'' [''revenue''] ''2024-01-01'' ''ttm''
             [[(''time'', VStr ''2024-01-01'')]]))
          ''AAPL'' = Some (TickerDir f))"
proof -
  note inst = ticker_directories_are_lazy
    [where d = None and c = "new_cache None" and coll = Prices and ticker = "''AAPL''"
       and calls = "[Get Prices ''AAPL'',
                     GetLineItems ''AAPL'' [''revenue''] ''2024-01-01'' ''ttm'']"
       and call = "Set Prices ''AAPL'' [[(''time'', VStr ''2024-01-01'')]]"
       and other = "''MSFT''" and data = "[[(''time'', VStr ''2024-01-01'')]]"
       and line_items = "[''revenue'']" and end_date = "''2024-01-01''"
       and period = "''ttm''"]
  have components: "path_component ''AAPL'' \<and> path_component ''MSFT''"
    by (simp add: path_component_def)
  have base: "base_dir (new_cache None) = Some []"
    using inst by simp
  have before: "directory_of (new_cache None) ''MSFT'' = None"
    by (simp add: directory_of_def base)
  have returned: "fst (set_collection Prices (new_cache None) ''AAPL''
                    [[(''time'', VStr ''2024-01-01'')]]) = None"
    by (simp add: set_collection_def merge_data_def new_cache_def load_cache_def
        empty_cache_def Let_def ensure_ticker_dir_def)
  have returned_items: "fst (set_line_items (new_cache None) ''AAPL'' [''revenue'']
                          ''2024-01-01'' ''ttm'' [[(''time'', VStr ''2024-01-01'')]]) = None"
    by (simp add: set_line_items_def Let_def ensure_ticker_dir_def base)
  from inst components base before returned returned_items show ?thesis
    by (simp add: set_prices_def)
qed

text \<open>
  The counterexample to C9 as stated: over a missing base directory, construction followed
  by one getter leaves an (empty) base directory.
\<close>

theorem construction_creates_base_directory:
  "base_dir (run (new_cache None) [Get Prices ''MSFT'']) = Some []"
  by (simp add: run_def new_cache_def load_cache_def empty_cache_def)

end
